theory Spec2Isabelle
  imports Complex_Main "HOL-Library.Sublist" "HOL-Library.Word"
begin

section \<open>Python values and strings\<close>

text \<open>
  A Python \<open>str\<close> is a sequence of code points. The model uses \<^typ>\<open>string\<close>, whose
  characters are the code points U+0000 to U+00FF.

  The values that reach the website predicate and the \<open>or\<close> chains of the program are
  \<open>None\<close>, booleans, strings, and any other object. An other object is represented
  by the two observations the program makes of it: the text \<open>str()\<close> returns for it and
  its truth value.
\<close>

datatype pyval = PNone | PBool bool | PStr string | PObj string bool

text \<open>\<open>str(x)\<close>.\<close>

fun str :: "pyval \<Rightarrow> string" where
  "str PNone = ''None''"
| "str (PBool b) = (if b then ''True'' else ''False'')"
| "str (PStr s) = s"
| "str (PObj s t) = s"

text \<open>The truth value of \<open>x\<close>, as \<open>if x\<close>, \<open>not x\<close> and \<open>x or y\<close> test it.\<close>

fun truthy :: "pyval \<Rightarrow> bool" where
  "truthy PNone = False"
| "truthy (PBool b) = b"
| "truthy (PStr s) = (s \<noteq> [])"
| "truthy (PObj s t) = t"

text \<open>\<open>a or b\<close>: the first operand when it is true, else the second.\<close>

definition py_or :: "pyval \<Rightarrow> pyval \<Rightarrow> pyval" where
  "py_or a b = (if truthy a then a else b)"

text \<open>
  A JSON object is read with \<open>dict.get\<close>. An entry is \<open>None\<close> when the key is missing
  and \<open>Some v\<close> when it is there with value \<open>v\<close> (\<open>Some PNone\<close> for a JSON null).
\<close>

definition get_default :: "pyval option \<Rightarrow> pyval \<Rightarrow> pyval" where
  "get_default entry dflt = (case entry of None \<Rightarrow> dflt | Some v \<Rightarrow> v)"

definition get_key :: "pyval option \<Rightarrow> pyval" where
  "get_key entry = get_default entry PNone"

text \<open>
  \<open>str.isspace\<close> for one code point below U+0100: tab, line feed, vertical tab, form
  feed, carriage return, the four separators U+001C to U+001F, space, U+0085 and U+00A0.
\<close>

definition isspace :: "char \<Rightarrow> bool" where
  "isspace c = (let n = (of_char c :: nat) in
     (9 \<le> n \<and> n \<le> 13) \<or> (28 \<le> n \<and> n \<le> 32) \<or> n = 133 \<or> n = 160)"

text \<open>\<open>s.strip()\<close>: leading and trailing whitespace removed.\<close>

definition strip :: "string \<Rightarrow> string" where
  "strip s = rev (dropWhile isspace (rev (dropWhile isspace s)))"

text \<open>
  \<open>s.upper()\<close> on the letters a to z. Outside ASCII Python maps a cased code point to
  other code points (none of them an ASCII N, A, O, E, U or L); the model leaves those
  code points as they are, which gives the same answer to the membership test below.
\<close>

definition upper_char :: "char \<Rightarrow> char" where
  "upper_char c = (let n = (of_char c :: nat) in
     if 97 \<le> n \<and> n \<le> 122 then char_of (n - 32) else c)"

definition upper :: "string \<Rightarrow> string" where
  "upper s = map upper_char s"

section \<open>The website-presence predicate\<close>

definition sentinels :: "string list" where
  "sentinels = [''N/A'', ''NA'', ''NONE'', ''NULL'']"

definition has_site :: "pyval \<Rightarrow> bool" where
  "has_site x =
     (if x = PNone then False
      else let s = strip (str x) in
        if s = [] then False
        else upper s \<notin> set sentinels)"

text \<open>
  The words of the specification: a case-insensitive match of two strings, stated with
  lower-case folding.
\<close>

definition lower_char :: "char \<Rightarrow> char" where
  "lower_char c = (let n = (of_char c :: nat) in
     if 65 \<le> n \<and> n \<le> 90 then char_of (n + 32) else c)"

definition ci_match :: "string \<Rightarrow> string \<Rightarrow> bool" where
  "ci_match s t = (map lower_char s = map lower_char t)"

definition whitespace_only :: "string \<Rightarrow> bool" where
  "whitespace_only s = list_all isspace s"

section \<open>The outside world\<close>

text \<open>
  The program talks to two HTTP endpoints, sleeps, reads the clock and writes to the
  user interface. Each run of a function returns, next to its value, the list of these
  effects in the order they happen. Delays are in milliseconds: \<open>time.sleep(1.0)\<close> is
  \<open>Sleep 1000\<close> and \<open>time.sleep(1.2)\<close> is \<open>Sleep 1200\<close>.
\<close>

datatype event =
    Post "pyval option"
  | Get string
  | Sleep nat
  | St_error_http int
  | St_progress_init
  | St_progress rat
  | St_progress_empty
  | St_error_no_key
  | St_success nat
  | St_info nat
  | St_warning_empty
  | St_download

datatype py_error = ZeroDivisionError

text \<open>
  One place of a text-search response. \<open>p_displayName\<close> is \<open>None\<close> when the key is
  missing or null, and else holds the \<open>text\<close> entry of the object found there.
\<close>

record place =
  p_id :: "pyval option"
  p_displayName :: "pyval option option"
  p_formattedAddress :: "pyval option"
  p_rating :: "pyval option"
  p_userRatingCount :: "pyval option"
  p_businessStatus :: "pyval option"
  p_websiteUri :: "pyval option"

record search_response =
  sr_status_code :: int
  sr_places :: "place list option"
  sr_nextPageToken :: "pyval option"

record search_result =
  name :: pyval
  address :: pyval
  rating :: pyval
  user_ratings_total :: pyval
  business_status :: pyval
  place_id :: pyval
  website :: pyval

text \<open>The JSON object of a details response; \<open>{}\<close> has no entry at all.\<close>

record details =
  d_id :: "pyval option"
  d_displayName :: "pyval option option"
  d_formattedAddress :: "pyval option"
  d_internationalPhoneNumber :: "pyval option"
  d_nationalPhoneNumber :: "pyval option"
  d_websiteUri :: "pyval option"
  d_googleMapsUri :: "pyval option"
  d_rating :: "pyval option"
  d_userRatingCount :: "pyval option"
  d_businessStatus :: "pyval option"

definition empty_details :: details where
  "empty_details = \<lparr>d_id = None, d_displayName = None, d_formattedAddress = None,
     d_internationalPhoneNumber = None, d_nationalPhoneNumber = None, d_websiteUri = None,
     d_googleMapsUri = None, d_rating = None, d_userRatingCount = None,
     d_businessStatus = None\<rparr>"

record details_response =
  d_status_code :: int
  d_json :: details

record detailed_record =
  Name :: pyval
  Address :: pyval
  Rating :: pyval
  User_Ratings :: pyval
  Business_Status :: pyval
  Phone_national :: pyval
  Phone_intl :: pyval
  Phone :: pyval
  Website :: pyval
  Google_Maps_URL :: pyval
  Place_ID :: pyval
  Fetched_At :: string

text \<open>\<open>(x.get("displayName") or {})\<close>, by its \<open>text\<close> entry.\<close>

definition or_empty_dict :: "pyval option option \<Rightarrow> pyval option" where
  "or_empty_dict dn = (case dn of None \<Rightarrow> None | Some entry \<Rightarrow> entry)"

text \<open>The integer \<open>0\<close>, the default of \<open>user_ratings_total\<close>.\<close>

definition py_zero :: pyval where
  "py_zero = PObj ''0'' False"

section \<open>Text search with pagination\<close>

definition to_search_result :: "place \<Rightarrow> search_result" where
  "to_search_result p =
     \<lparr>name = get_default (or_empty_dict (p_displayName p)) (PStr ''N/A''),
      address = get_default (p_formattedAddress p) (PStr ''N/A''),
      rating = get_default (p_rating p) (PStr ''N/A''),
      user_ratings_total = get_default (p_userRatingCount p) py_zero,
      business_status = get_default (p_businessStatus p) (PStr ''N/A''),
      place_id = get_key (p_id p),
      website = py_or (get_key (p_websiteUri p)) (PStr '''')\<rparr>"

text \<open>
  The \<open>while True\<close> loop of \<open>fetch_businesses_v1\<close>, with its three variables
  \<open>results\<close>, \<open>pages_fetched\<close> and \<open>page_token\<close>. \<open>post n tok\<close> is the response to
  the request issued after \<open>n\<close> earlier ones, whose body carries the \<open>pageToken\<close> entry
  \<open>tok\<close>; every pass that goes on has counted its request in \<open>pages_fetched\<close>, so the
  request of the current pass is number \<open>pages_fetched\<close>. The other parts of the request
  (key, field mask, query, location bias, page size) are the same in every request.
\<close>

function fetch_loop ::
  "(nat \<Rightarrow> pyval option \<Rightarrow> search_response) \<Rightarrow> int \<Rightarrow> search_result list \<Rightarrow> nat \<Rightarrow> pyval
     \<Rightarrow> search_result list \<times> event list" where
  "fetch_loop post max_pages results pages_fetched page_token =
     (let body = (if truthy page_token then Some page_token else None);
          resp = post pages_fetched body
      in if sr_status_code resp \<noteq> 200
         then (results, [Post body, St_error_http (sr_status_code resp)])
         else
           let results' = results @ map to_search_result
                            (case sr_places resp of None \<Rightarrow> [] | Some ps \<Rightarrow> ps);
               page_token' = get_key (sr_nextPageToken resp);
               pages_fetched' = pages_fetched + 1
           in if \<not> truthy page_token' \<or> int pages_fetched' \<ge> max_pages
              then (results', [Post body])
              else apsnd (\<lambda>evs. Post body # Sleep 1000 # evs)
                     (fetch_loop post max_pages results' pages_fetched' page_token'))"
  by pat_completeness auto
termination
  by (relation "measure (\<lambda>(post, max_pages, results, pages_fetched, page_token).
        nat (max_pages - int pages_fetched))") auto

declare fetch_loop.simps [simp del]

definition fetch_businesses_v1 ::
  "(nat \<Rightarrow> pyval option \<Rightarrow> search_response) \<Rightarrow> int \<Rightarrow> search_result list \<times> event list" where
  "fetch_businesses_v1 post max_pages = fetch_loop post max_pages [] 0 PNone"

section \<open>Place details with retries\<close>

definition details_url :: "pyval \<Rightarrow> string" where
  "details_url pid = ''https://places.googleapis.com/v1/places/'' @ str pid"

text \<open>
  The \<open>for _ in range(retries)\<close> loop. \<open>http_get n url\<close> is the response to the GET
  request for \<open>url\<close> issued after \<open>n\<close> earlier GET requests of the run.
\<close>

fun details_attempts ::
  "(nat \<Rightarrow> string \<Rightarrow> details_response) \<Rightarrow> string \<Rightarrow> nat \<Rightarrow> nat list \<Rightarrow> details \<times> event list" where
  "details_attempts http_get url n [] = (empty_details, [])"
| "details_attempts http_get url n (_ # later) =
     (let r = http_get n url
      in if d_status_code r = 200 then (d_json r, [Get url])
         else apsnd (\<lambda>evs. Get url # Sleep 1200 # evs)
                (details_attempts http_get url (Suc n) later))"

definition get_detailed_info_v1 ::
  "(nat \<Rightarrow> string \<Rightarrow> details_response) \<Rightarrow> pyval \<Rightarrow> int \<Rightarrow> nat \<Rightarrow> details \<times> event list" where
  "get_detailed_info_v1 http_get pid retries n =
     details_attempts http_get (details_url pid) n [0..<nat retries]"

text \<open>The default of the parameter \<open>retries\<close>, which the only caller uses.\<close>

definition default_retries :: int where
  "default_retries = 3"

fun is_get :: "event \<Rightarrow> bool" where
  "is_get (Get url) = True"
| "is_get _ = False"

section \<open>Enrichment\<close>

text \<open>The row that one pass of the loop appends.\<close>

definition detailed_row :: "details \<Rightarrow> search_result \<Rightarrow> string \<Rightarrow> detailed_record" where
  "detailed_row d b stamp =
     (let national = get_key (d_nationalPhoneNumber d);
          international = get_key (d_internationalPhoneNumber d);
          phone = py_or (py_or national international) (PStr ''N/A'');
          website = py_or (py_or (get_key (d_websiteUri d)) (website b)) (PStr '''')
      in \<lparr>Name = py_or (get_key (or_empty_dict (d_displayName d))) (name b),
          Address = get_default (d_formattedAddress d) (address b),
          Rating = get_default (d_rating d) (rating b),
          User_Ratings = get_default (d_userRatingCount d) (user_ratings_total b),
          Business_Status = get_default (d_businessStatus d) (business_status b),
          Phone_national = py_or national (PStr ''''),
          Phone_intl = py_or international (PStr ''''),
          Phone = phone,
          Website = website,
          Google_Maps_URL = get_default (d_googleMapsUri d) (PStr ''N/A''),
          Place_ID = get_default (d_id d) (place_id b),
          Fetched_At = stamp\<rparr>)"

text \<open>\<open>i / n\<close> on integers: the exact quotient, or the error Python raises.\<close>

definition py_truediv :: "nat \<Rightarrow> nat \<Rightarrow> py_error + rat" where
  "py_truediv i n = (if n = 0 then Inl ZeroDivisionError else Inr (of_nat i / of_nat n))"

text \<open>
  The \<open>for i, b in enumerate(raw_places, start=1)\<close> loop. \<open>len\<close> is
  \<open>len(raw_places)\<close>, \<open>n\<close> counts the GET requests issued so far, and \<open>clock i\<close> is the
  text of \<open>datetime.utcnow()\<close> when row \<open>i\<close> is built.
\<close>

fun enrich_loop ::
  "(nat \<Rightarrow> string \<Rightarrow> details_response) \<Rightarrow> (nat \<Rightarrow> string) \<Rightarrow> nat \<Rightarrow> nat \<Rightarrow> nat
     \<Rightarrow> search_result list \<Rightarrow> py_error + (detailed_record list \<times> event list)" where
  "enrich_loop http_get clock len i n [] = Inr ([], [])"
| "enrich_loop http_get clock len i n (b # bs) =
     (case get_detailed_info_v1 http_get (place_id b) default_retries n of
        (d, evs) \<Rightarrow>
          (case py_truediv i len of
             Inl e \<Rightarrow> Inl e
           | Inr fraction \<Rightarrow>
               (case enrich_loop http_get clock len (Suc i)
                       (n + length (filter is_get evs)) bs of
                  Inl e \<Rightarrow> Inl e
                | Inr (rows, evs') \<Rightarrow>
                    Inr (detailed_row d b (clock i) # rows,
                         evs @ St_progress fraction # evs'))))"

definition enrich_with_details_v1 ::
  "(nat \<Rightarrow> string \<Rightarrow> details_response) \<Rightarrow> (nat \<Rightarrow> string) \<Rightarrow> search_result list
     \<Rightarrow> py_error + (detailed_record list \<times> event list)" where
  "enrich_with_details_v1 http_get clock raw_places =
     (if raw_places = [] then Inr ([], [])
      else case enrich_loop http_get clock (length raw_places) 1 0 raw_places of
             Inl e \<Rightarrow> Inl e
           | Inr (enriched, evs) \<Rightarrow> Inr (enriched, St_progress_init # evs @ [St_progress_empty]))"

section \<open>Export\<close>

type_synonym byte = "8 word"

record export_out =
  bytes :: "byte list"
  mime :: string
  filename :: string

text \<open>\<open>s.encode("utf-8-sig")\<close> for code points below U+0100.\<close>

definition utf8_char :: "char \<Rightarrow> byte list" where
  "utf8_char c = (let n = (of_char c :: nat) in
     if n < 128 then [of_nat n] else [of_nat (192 + n div 64), of_nat (128 + n mod 64)])"

definition utf8 :: "string \<Rightarrow> byte list" where
  "utf8 s = concat (map utf8_char s)"

definition bom :: "byte list" where
  "bom = [0xEF, 0xBB, 0xBF]"

definition encode_utf8_sig :: "string \<Rightarrow> byte list" where
  "encode_utf8_sig s = bom @ utf8 s"

definition xlsx_mime :: string where
  "xlsx_mime = ''application/vnd.openxmlformats-officedocument.spreadsheetml.sheet''"

text \<open>
  The two spreadsheet backends and \<open>DataFrame.to_csv\<close> are library code, taken as
  parameters. A backend gives \<open>None\<close> when anything in its \<open>try\<close> block raises (the
  import or the writer), and else the bytes of the workbook.
\<close>

definition dataframe_to_excel_bytes ::
  "('df \<Rightarrow> byte list option) \<Rightarrow> ('df \<Rightarrow> byte list option) \<Rightarrow> ('df \<Rightarrow> string) \<Rightarrow> 'df
     \<Rightarrow> export_out" where
  "dataframe_to_excel_bytes openpyxl xlsxwriter to_csv df =
     (case openpyxl df of
        Some b \<Rightarrow> \<lparr>bytes = b, mime = xlsx_mime, filename = ''business_list.xlsx''\<rparr>
      | None \<Rightarrow>
          (case xlsxwriter df of
             Some b \<Rightarrow> \<lparr>bytes = b, mime = xlsx_mime, filename = ''business_list.xlsx''\<rparr>
           | None \<Rightarrow>
               \<lparr>bytes = encode_utf8_sig (to_csv df), mime = ''text/csv'',
                filename = ''business_list.csv''\<rparr>))"

section \<open>The end-to-end run\<close>

record world =
  w_post :: "nat \<Rightarrow> pyval option \<Rightarrow> search_response"
  w_http_get :: "nat \<Rightarrow> string \<Rightarrow> details_response"
  w_clock :: "nat \<Rightarrow> string"
  w_openpyxl :: "detailed_record list \<Rightarrow> byte list option"
  w_xlsxwriter :: "detailed_record list \<Rightarrow> byte list option"
  w_to_csv :: "detailed_record list \<Rightarrow> string"

datatype outcome = Stopped | Downloaded "detailed_record list" export_out

text \<open>The two filter passes, as the comprehensions of the script write them.\<close>

definition pre_filter :: "search_result list \<Rightarrow> search_result list" where
  "pre_filter ps = filter (\<lambda>p. \<not> has_site (website p)) ps"

definition post_filter :: "detailed_record list \<Rightarrow> detailed_record list" where
  "post_filter rows = filter (\<lambda>row. \<not> has_site (Website row)) rows"

text \<open>The body of \<open>if run_btn:\<close>. \<open>st.stop()\<close> ends the run with \<open>Stopped\<close>.\<close>

definition run ::
  "world \<Rightarrow> string \<Rightarrow> int \<Rightarrow> bool \<Rightarrow> py_error + (outcome \<times> event list)" where
  "run w api_key max_pages only_no_website =
     (if api_key = [] then Inr (Stopped, [St_error_no_key])
      else
        case fetch_businesses_v1 (w_post w) max_pages of
          (places, evs1) \<Rightarrow>
            let evs2 = evs1 @ [St_success (length places)];
                places_no_site = (if only_no_website then pre_filter places else places);
                evs3 = (if only_no_website then evs2 @ [St_info (length places_no_site)]
                        else evs2)
            in if places_no_site = [] then Inr (Stopped, evs3 @ [St_warning_empty])
               else
                 case enrich_with_details_v1 (w_http_get w) (w_clock w) places_no_site of
                   Inl e \<Rightarrow> Inl e
                 | Inr (enriched, evs4) \<Rightarrow>
                     let enriched' = (if only_no_website then post_filter enriched
                                      else enriched);
                         out = dataframe_to_excel_bytes (w_openpyxl w) (w_xlsxwriter w)
                                 (w_to_csv w) enriched'
                     in Inr (Downloaded enriched' out, evs3 @ evs4 @ [St_download]))"

section \<open>Observations of a run and the words of the specification\<close>

text \<open>
  The definitions of this section are not part of the program. They read off a list of
  effects what a claim talks about, or write down the words of the specification, so
  that the theorems can compare them with what the program computes.

  The details objects that enrichment works with, one for each search result, in order:
  the same calls of the details client as in the loop of \<open>enrich_with_details_v1\<close>.
\<close>

fun details_for ::
  "(nat \<Rightarrow> string \<Rightarrow> details_response) \<Rightarrow> nat \<Rightarrow> search_result list \<Rightarrow> details list" where
  "details_for http_get n [] = []"
| "details_for http_get n (b # bs) =
     (case get_detailed_info_v1 http_get (place_id b) default_retries n of
        (d, evs) \<Rightarrow> d # details_for http_get (n + length (filter is_get evs)) bs)"

text \<open>
  The words of the specification for "when present": the entry is there and its value
  is neither null nor empty (nor any other value that Python's \<open>or\<close> skips).
\<close>

definition present :: "pyval option \<Rightarrow> bool" where
  "present entry = (case entry of None \<Rightarrow> False | Some v \<Rightarrow> truthy v)"

text \<open>
  The words of the specification: the national number, else the international number,
  else \<open>N/A\<close>.
\<close>

definition phone_choice :: "details \<Rightarrow> pyval" where
  "phone_choice d =
     (if present (d_nationalPhoneNumber d) then get_key (d_nationalPhoneNumber d)
      else if present (d_internationalPhoneNumber d) then get_key (d_internationalPhoneNumber d)
      else PStr ''N/A'')"

text \<open>
  The words of the specification: the website of the details response, else the one of
  the search result, else the empty string.
\<close>

definition website_choice :: "details \<Rightarrow> search_result \<Rightarrow> pyval" where
  "website_choice d b =
     (if present (d_websiteUri d) then get_key (d_websiteUri d)
      else if truthy (website b) then website b
      else PStr '''')"

text \<open>
  The fractions passed to \<open>progress.progress\<close>, the URLs of the GET requests and the
  \<open>pageToken\<close> entries of the POST requests, each in order.
\<close>

fun progress_fractions :: "event list \<Rightarrow> rat list" where
  "progress_fractions [] = []"
| "progress_fractions (St_progress f # es) = f # progress_fractions es"
| "progress_fractions (e # es) = progress_fractions es"

fun get_urls :: "event list \<Rightarrow> string list" where
  "get_urls [] = []"
| "get_urls (Get url # es) = url # get_urls es"
| "get_urls (e # es) = get_urls es"

fun requests :: "event list \<Rightarrow> pyval option list" where
  "requests [] = []"
| "requests (Post body # es) = body # requests es"
| "requests (e # es) = requests es"

text \<open>\<open>between sep xs\<close> puts \<open>sep\<close> between every two neighbours of \<open>xs\<close>.\<close>

fun between :: "'a \<Rightarrow> 'a list \<Rightarrow> 'a list" where
  "between sep [] = []"
| "between sep [x] = [x]"
| "between sep (x # y # ys) = x # sep # between sep (y # ys)"

text \<open>The requests and delays of a text search, without the error report.\<close>

fun is_paced :: "event \<Rightarrow> bool" where
  "is_paced (Post body) = True"
| "is_paced (Sleep ms) = True"
| "is_paced _ = False"

text \<open>
  The \<open>pageToken\<close> entry of the request sent with page token \<open>tok\<close>, the token and the
  results of a response, and the responses to a list of requests of which the first is
  request number \<open>pf\<close>.
\<close>

definition body_of :: "pyval \<Rightarrow> pyval option" where
  "body_of tok = (if truthy tok then Some tok else None)"

definition token :: "search_response \<Rightarrow> pyval" where
  "token r = get_key (sr_nextPageToken r)"

definition page_results :: "search_response \<Rightarrow> search_result list" where
  "page_results r = map to_search_result (case sr_places r of None \<Rightarrow> [] | Some ps \<Rightarrow> ps)"

definition responses ::
  "(nat \<Rightarrow> pyval option \<Rightarrow> search_response) \<Rightarrow> nat \<Rightarrow> pyval option list \<Rightarrow> search_response list" where
  "responses post pf reqs = map (\<lambda>(k, body). post k body) (enumerate pf reqs)"

text \<open>
  The words of the specification for going on after response number \<open>k\<close>: it has
  status 200, it carries a token, and the page count \<open>k + 1\<close> is below the maximum.
\<close>

definition goes_on :: "int \<Rightarrow> nat \<Rightarrow> search_response \<Rightarrow> bool" where
  "goes_on mp k r = (sr_status_code r = 200 \<and> truthy (token r) \<and> int (Suc k) < mp)"

text \<open>The effects and the final rows of a run.\<close>

definition run_events :: "py_error + (outcome \<times> event list) \<Rightarrow> event list" where
  "run_events r = (case r of Inl e \<Rightarrow> [] | Inr (oc, evs) \<Rightarrow> evs)"

definition run_rows :: "py_error + (outcome \<times> event list) \<Rightarrow> detailed_record list" where
  "run_rows r = (case r of Inr (Downloaded rows out, evs) \<Rightarrow> rows | _ \<Rightarrow> [])"

section \<open>Mocked worlds\<close>

text \<open>
  Concrete responses for the examples: a place with an id and an optional website, a
  page of places with an optional next-page token, and a mocked endpoint that answers
  its \<open>n\<close>-th request with the \<open>n\<close>-th response of a list and with a failure after that.
\<close>

definition mk_place :: "string \<Rightarrow> pyval option \<Rightarrow> place" where
  "mk_place pid site =
     \<lparr>p_id = Some (PStr pid), p_displayName = Some (Some (PStr ''Shop'')),
      p_formattedAddress = Some (PStr ''1 Main Rd''), p_rating = None,
      p_userRatingCount = None, p_businessStatus = None, p_websiteUri = site\<rparr>"

definition page :: "place list \<Rightarrow> pyval option \<Rightarrow> search_response" where
  "page ps tok = \<lparr>sr_status_code = 200, sr_places = Some ps, sr_nextPageToken = tok\<rparr>"

definition mock_post :: "search_response list \<Rightarrow> nat \<Rightarrow> pyval option \<Rightarrow> search_response" where
  "mock_post rs n body =
     (if n < length rs then rs ! n
      else \<lparr>sr_status_code = 500, sr_places = None, sr_nextPageToken = None\<rparr>)"

text \<open>
  A details response with status 200 carrying the two phone numbers and the website, a
  failed one, and the mocked details endpoint.
\<close>

definition details_ok :: "pyval option \<Rightarrow> pyval option \<Rightarrow> pyval option \<Rightarrow> details_response" where
  "details_ok national international site =
     \<lparr>d_status_code = 200,
      d_json = empty_details\<lparr>d_nationalPhoneNumber := national,
                 d_internationalPhoneNumber := international, d_websiteUri := site\<rparr>\<rparr>"

definition details_failed :: details_response where
  "details_failed = \<lparr>d_status_code = 503, d_json = empty_details\<rparr>"

definition mock_get :: "details_response list \<Rightarrow> nat \<Rightarrow> string \<Rightarrow> details_response" where
  "mock_get rs n url = (if n < length rs then rs ! n else details_failed)"

text \<open>A world with both endpoints mocked and no spreadsheet backend installed.\<close>

definition mock_world :: "search_response list \<Rightarrow> details_response list \<Rightarrow> world" where
  "mock_world pages ds =
     \<lparr>w_post = mock_post pages, w_http_get = mock_get ds,
      w_clock = (\<lambda>i. ''2026-01-01 00:00:00 UTC''),
      w_openpyxl = (\<lambda>df. None), w_xlsxwriter = (\<lambda>df. None),
      w_to_csv = (\<lambda>df. ''Name,Phone'')\<rparr>"

text \<open>Three pages with the token sequence A, B, none.\<close>

definition pages_abc :: "search_response list" where
  "pages_abc =
     [page [mk_place ''p1'' None] (Some (PStr ''A'')),
      page [mk_place ''p2'' None] (Some (PStr ''B'')),
      page [mk_place ''p3'' None] None]"

text \<open>The search result of a place whose website is the given text.\<close>

definition mk_result :: "string \<Rightarrow> string \<Rightarrow> search_result" where
  "mk_result pid site = to_search_result (mk_place pid (Some (PStr site)))"

text \<open>
  Four runs: the details reveal a real website for the first of two places and \<open>N/A\<close>
  for the second; the details give \<open>N/A\<close> for the only place; the search finds one place
  with a website and one without; the search finds one place, with a website.
\<close>

definition world_site_found_by_details :: world where
  "world_site_found_by_details =
     mock_world [page [mk_place ''p1'' None, mk_place ''p2'' None] None]
       [details_ok (Some (PStr ''011-123'')) None (Some (PStr ''https://shop.example'')),
        details_ok (Some (PStr ''011-456'')) None (Some (PStr ''N/A''))]"

definition world_na_from_details :: world where
  "world_na_from_details =
     mock_world [page [mk_place ''p1'' None] None]
       [details_ok (Some (PStr ''011-123'')) None (Some (PStr ''N/A''))]"

definition world_mixed_search :: world where
  "world_mixed_search =
     mock_world [page [mk_place ''p1'' (Some (PStr ''https://example.com'')),
                       mk_place ''p2'' None] None]
       [details_ok (Some (PStr ''011-123'')) None None,
        details_ok (Some (PStr ''011-456'')) None None]"

definition world_site_in_search :: world where
  "world_site_in_search =
     mock_world [page [mk_place ''p1'' (Some (PStr ''https://example.com''))] None]
       [details_ok (Some (PStr ''011-123'')) None None]"

section \<open>The website-presence predicate: results\<close>

lemma strip_Nil_iff: "strip s = [] \<longleftrightarrow> whitespace_only s"
proof
  assume "strip s = []"
  then have a: "\<forall>x\<in>set (dropWhile isspace s). isspace x"
    by (simp add: strip_def dropWhile_eq_Nil_conv)
  have "dropWhile isspace s = []"
  proof (rule ccontr)
    assume n: "dropWhile isspace s \<noteq> []"
    then have "\<not> isspace (hd (dropWhile isspace s))" by (rule hd_dropWhile)
    moreover have "hd (dropWhile isspace s) \<in> set (dropWhile isspace s)" using n by simp
    ultimately show False using a by blast
  qed
  then show "whitespace_only s"
    by (simp add: whitespace_only_def list_all_iff)
next
  assume "whitespace_only s"
  then have "\<forall>x\<in>set s. isspace x"
    by (simp add: whitespace_only_def list_all_iff)
  then show "strip s = []"
    by (auto simp add: strip_def dest: set_dropWhileD)
qed

lemma of_char_lt: "(of_char c :: nat) < 256"
  by simp

lemma upper_char_code: "(of_char (upper_char c) :: nat) = (let n = of_char c in if 97 \<le> n \<and> n \<le> 122 then n - 32 else n)"
  using of_char_lt [of c] by (auto simp add: upper_char_def Let_def)

lemma lower_char_code: "(of_char (lower_char c) :: nat) = (let n = of_char c in if 65 \<le> n \<and> n \<le> 90 then n + 32 else n)"
  using of_char_lt [of c] by (auto simp add: lower_char_def Let_def)

lemma char_eq_code: "a = b \<longleftrightarrow> (of_char a :: nat) = of_char b"
  by simp

lemma lower_upper_char: "lower_char (upper_char c) = lower_char c"
  unfolding char_eq_code [of "lower_char (upper_char c)"] lower_char_code upper_char_code Let_def by auto

lemma upper_lower_char: "upper_char (lower_char c) = upper_char c"
  unfolding char_eq_code [of "upper_char (lower_char c)"] lower_char_code upper_char_code Let_def by auto

lemma fold_char_iff: "upper_char a = upper_char b \<longleftrightarrow> lower_char a = lower_char b"
  by (metis lower_upper_char upper_lower_char)

lemma fold_iff: "upper s = upper t \<longleftrightarrow> ci_match s t"
proof -
  have "map upper_char s = map upper_char t \<longleftrightarrow> map lower_char s = map lower_char t"
    by (auto simp add: list_eq_iff_nth_eq fold_char_iff)
  then show ?thesis by (simp add: upper_def ci_match_def)
qed

lemma upper_sentinels: "t \<in> set sentinels \<Longrightarrow> upper t = t"
  by (auto simp: sentinels_def upper_def upper_char_def)

lemma upper_in_sentinels: "upper s \<in> set sentinels \<longleftrightarrow> (\<exists>t\<in>set sentinels. ci_match s t)"
proof
  assume "upper s \<in> set sentinels"
  moreover from this have "upper (upper s) = upper s" by (rule upper_sentinels)
  ultimately show "\<exists>t\<in>set sentinels. ci_match s t"
    by (metis fold_iff)
next
  assume "\<exists>t\<in>set sentinels. ci_match s t"
  then obtain t where t: "t \<in> set sentinels" "ci_match s t" by blast
  then have "upper s = upper t" by (simp add: fold_iff)
  with t show "upper s \<in> set sentinels" by (simp add: upper_sentinels)
qed

text \<open>
  Claim C1. The website-presence predicate is false exactly when the value is \<open>None\<close>,
  when its string form is empty or consists of whitespace only, or when its trimmed
  string form matches one of the sentinels N/A, NA, NONE, NULL without regard to case;
  on every other value it is true.
\<close>

theorem has_site_classification:
  "has_site x \<longleftrightarrow>
     \<not> (x = PNone \<or> whitespace_only (str x) \<or> (\<exists>t\<in>set sentinels. ci_match (strip (str x)) t))"
  by (simp add: has_site_def Let_def strip_Nil_iff upper_in_sentinels del: ex_simps bex_simps)


theorem has_site_classification_witness:
  "\<not> has_site (PStr '' n/a  '') \<and> \<not> has_site (PStr ''   '') \<and> has_site (PStr '' https://example.com '')"
  using has_site_classification [of "PStr '' n/a  ''"]
        has_site_classification [of "PStr ''   ''"]
        has_site_classification [of "PStr '' https://example.com ''"]
  by (simp add: sentinels_def ci_match_def strip_def whitespace_only_def isspace_def
        lower_char_def char_of_eq_iff eq_commute [of _ "char_of _"])

text \<open>Applied to a boolean, the predicate reads the text \<open>True\<close> or \<open>False\<close>.\<close>

lemma has_site_bool: "has_site (PBool b)"
  by (cases b) (simp_all add: has_site_def strip_def isspace_def upper_def upper_char_def sentinels_def)

text \<open>
  Claim C9, amended. The predicate applied to its own result is always true, so
  \<open>has_site(has_site(x)) = has_site(x)\<close> holds exactly for the values \<open>x\<close> on which
  the predicate is true.
\<close>

theorem has_site_twice: "(has_site (PBool (has_site x)) = has_site x) = has_site x"
  by (simp add: has_site_bool)

text \<open>
  Claim C9 as stated fails at \<open>None\<close>: the predicate is false there, and true on
  that result.
\<close>

theorem has_site_not_idempotent: "has_site (PBool (has_site PNone)) \<noteq> has_site PNone"
  by (simp add: has_site_bool) (simp add: has_site_def)

section \<open>Enrichment: results\<close>

lemma present_truthy: "present entry = truthy (get_key entry)"
  by (simp add: present_def get_key_def get_default_def split: option.splits)

lemma Phone_detailed_row: "Phone (detailed_row d b stamp) = phone_choice d"
  by (simp add: detailed_row_def phone_choice_def present_truthy py_or_def Let_def)

lemma Website_detailed_row: "Website (detailed_row d b stamp) = website_choice d b"
  by (simp add: detailed_row_def website_choice_def present_truthy py_or_def Let_def)

lemma py_truediv_pos: "0 < len \<Longrightarrow> py_truediv i len = Inr (of_nat i / of_nat len)"
  by (simp add: py_truediv_def)

lemma enrich_loop_rows:
  "0 < len \<Longrightarrow> \<exists>evs. enrich_loop g clock len i n bs =
     Inr (map (\<lambda>(k, d, b). detailed_row d b (clock k))
            (enumerate i (zip (details_for g n bs) bs)), evs)"
proof (induction bs arbitrary: i n)
  case Nil
  then show ?case by simp
next
  case (Cons b bs)
  obtain d evs where g: "get_detailed_info_v1 g (place_id b) default_retries n = (d, evs)"
    by (cases "get_detailed_info_v1 g (place_id b) default_retries n")
  from Cons.IH [OF Cons.prems, of "Suc i" "n + length (filter is_get evs)"]
  obtain evs' where "enrich_loop g clock len (Suc i) (n + length (filter is_get evs)) bs =
     Inr (map (\<lambda>(k, d, b). detailed_row d b (clock k))
            (enumerate (Suc i) (zip (details_for g (n + length (filter is_get evs)) bs) bs)), evs')"
    by blast
  with g Cons.prems show ?case
    by (simp add: py_truediv_pos)
qed

lemma enrich_rows:
  "\<exists>evs. enrich_with_details_v1 g clock bs =
     Inr (map (\<lambda>(k, d, b). detailed_row d b (clock k))
            (enumerate 1 (zip (details_for g 0 bs) bs)), evs)"
proof (cases "bs = []")
  case True
  then show ?thesis by (simp add: enrich_with_details_v1_def)
next
  case False
  then have "0 < length bs" by simp
  from enrich_loop_rows [OF this, of g clock 1 0 bs]
  show ?thesis using False by (auto simp add: enrich_with_details_v1_def)
qed

lemma length_details_for: "length (details_for g n bs) = length bs"
  by (induction bs arbitrary: n) (auto split: prod.splits)

text \<open>
  Claim C3. Enrichment always returns its rows, and the \<open>Phone\<close> field of each row is
  the national phone number of the details response fetched for it when that is present,
  else its international phone number when that is present, else the text \<open>N/A\<close>.
  Present means: the entry is there with a value that is neither null nor empty.
\<close>
theorem phone_preference:
  "\<exists>rows evs. enrich_with_details_v1 g clock bs = Inr (rows, evs) \<and>
     map Phone rows = map phone_choice (details_for g 0 bs)"
proof -
  obtain evs where e: "enrich_with_details_v1 g clock bs =
     Inr (map (\<lambda>(k, d, b). detailed_row d b (clock k))
            (enumerate 1 (zip (details_for g 0 bs) bs)), evs)"
    using enrich_rows by blast
  have "map Phone (map (\<lambda>(k, d, b). detailed_row d b (clock k))
            (enumerate i (zip ds bs))) = map phone_choice ds" if "length ds = length bs" for i ds
    using that
    by (induction ds bs arbitrary: i rule: list_induct2) (simp_all add: Phone_detailed_row)
  then show ?thesis using e length_details_for by blast
qed

lemma attempts_default: "[0..<nat default_retries] = [0, 1, 2]"
  by (simp add: default_retries_def upt_rec)

lemma get_detailed_info_v1_cases:
  "get_detailed_info_v1 g pid default_retries n =
     (let url = details_url pid in
      if d_status_code (g n url) = 200 then (d_json (g n url), [Get url])
      else if d_status_code (g (n + 1) url) = 200
        then (d_json (g (n + 1) url), [Get url, Sleep 1200, Get url])
      else if d_status_code (g (n + 2) url) = 200
        then (d_json (g (n + 2) url), [Get url, Sleep 1200, Get url, Sleep 1200, Get url])
      else (empty_details,
            [Get url, Sleep 1200, Get url, Sleep 1200, Get url, Sleep 1200]))"
  by (simp add: get_detailed_info_v1_def attempts_default Let_def)


lemma details_events:
  assumes "get_detailed_info_v1 g pid default_retries n = (d, evs)"
  shows "progress_fractions evs = []" and "requests evs = []"
    and "set (get_urls evs) = {details_url pid}"
  using assms by (auto simp add: get_detailed_info_v1_cases Let_def split: if_splits)

lemma progress_fractions_append [simp]:
  "progress_fractions (xs @ ys) = progress_fractions xs @ progress_fractions ys"
  by (induction xs rule: progress_fractions.induct) simp_all

lemma get_urls_append [simp]: "get_urls (xs @ ys) = get_urls xs @ get_urls ys"
  by (induction xs rule: get_urls.induct) simp_all

lemma requests_append [simp]: "requests (xs @ ys) = requests xs @ requests ys"
  by (induction xs rule: requests.induct) simp_all

lemma enrich_loop_events:
  "enrich_loop g clock len i n bs = Inr (rows, evs) \<Longrightarrow>
     progress_fractions evs = map (\<lambda>k. of_nat k / of_nat len) [i..<i + length bs] \<and>
     requests evs = [] \<and>
     set (get_urls evs) = (\<lambda>b. details_url (place_id b)) ` set bs"
proof (induction bs arbitrary: i n rows evs)
  case Nil
  then show ?case by simp
next
  case (Cons b bs)
  obtain d evs1 where g: "get_detailed_info_v1 g (place_id b) default_retries n = (d, evs1)"
    by (cases "get_detailed_info_v1 g (place_id b) default_retries n")
  from Cons.prems g obtain rows' evs' where
    r: "enrich_loop g clock len (Suc i) (n + length (filter is_get evs1)) bs = Inr (rows', evs')"
    and e: "evs = evs1 @ St_progress (of_nat i / of_nat len) # evs'"
    by (auto simp add: py_truediv_def split: if_splits sum.splits)
  have u: "[i..<i + length (b # bs)] = i # [Suc i..<Suc i + length bs]"
    by (simp add: upt_conv_Cons del: upt_Suc)
  from Cons.IH [OF r] details_events [OF g] e show ?case
    unfolding u by (simp del: upt_Suc)
qed

lemma fraction_bounds:
  "list_all (\<lambda>f. 0 < f \<and> f \<le> (1::rat)) (map (\<lambda>k. of_nat k / of_nat len) [1..<Suc len])"
  by (auto simp add: list_all_iff)

text \<open>
  Claim C10. On the empty list enrichment returns the empty list with no effect at all.
  On every list it returns rows and never the division error; the fractions it reports
  are \<open>i / len\<close> for \<open>i\<close> from 1 to \<open>len\<close>, each greater than 0 and at most 1.
\<close>
theorem progress_fraction_defined:
  "enrich_with_details_v1 g clock [] = Inr ([], []) \<and>
   (\<exists>rows evs. enrich_with_details_v1 g clock bs = Inr (rows, evs) \<and>
      progress_fractions evs = map (\<lambda>i. of_nat i / of_nat (length bs)) [1..<Suc (length bs)] \<and>
      list_all (\<lambda>f. 0 < f \<and> f \<le> 1) (progress_fractions evs))"
proof
  show "enrich_with_details_v1 g clock [] = Inr ([], [])"
    by (simp add: enrich_with_details_v1_def)
next
  show "\<exists>rows evs. enrich_with_details_v1 g clock bs = Inr (rows, evs) \<and>
      progress_fractions evs = map (\<lambda>i. of_nat i / of_nat (length bs)) [1..<Suc (length bs)] \<and>
      list_all (\<lambda>f. 0 < f \<and> f \<le> 1) (progress_fractions evs)"
  proof (cases "bs = []")
    case True
    then show ?thesis by (simp add: enrich_with_details_v1_def)
  next
    case False
    then have pos: "0 < length bs" by simp
    from enrich_loop_rows [OF pos, of g clock 1 0 bs]
    obtain rows evs where l: "enrich_loop g clock (length bs) 1 0 bs = Inr (rows, evs)"
      by blast
    from enrich_loop_events [OF l]
    have f: "progress_fractions evs = map (\<lambda>k. of_nat k / of_nat (length bs)) [1..<Suc (length bs)]"
      by simp
    have "enrich_with_details_v1 g clock bs = Inr (rows, St_progress_init # evs @ [St_progress_empty])"
      using False l by (simp add: enrich_with_details_v1_def)
    moreover have "progress_fractions (St_progress_init # evs @ [St_progress_empty]) =
        map (\<lambda>k. of_nat k / of_nat (length bs)) [1..<Suc (length bs)]"
      using f by simp
    ultimately show ?thesis
      using fraction_bounds [of "length bs"] by auto
  qed
qed

text \<open>
  Claim C6. When both spreadsheet backends raise, the export is the CSV text encoded as
  UTF-8 after a byte-order mark, with MIME type \<open>text/csv\<close> and a file name ending in
  \<open>.csv\<close>. The first backend that does not raise decides the result: the second is
  used when the first raises, the CSV when both do.
\<close>
theorem export_fallback:
  "(openpyxl df = None \<and> xlsxwriter df = None \<longrightarrow>
      mime (dataframe_to_excel_bytes openpyxl xlsxwriter to_csv df) = ''text/csv'' \<and>
      suffix ''.csv'' (filename (dataframe_to_excel_bytes openpyxl xlsxwriter to_csv df)) \<and>
      bytes (dataframe_to_excel_bytes openpyxl xlsxwriter to_csv df) =
        [0xEF, 0xBB, 0xBF] @ utf8 (to_csv df)) \<and>
   (openpyxl df = None \<longrightarrow> (\<forall>b. xlsxwriter df = Some b \<longrightarrow>
      dataframe_to_excel_bytes openpyxl xlsxwriter to_csv df =
        \<lparr>bytes = b, mime = xlsx_mime, filename = ''business_list.xlsx''\<rparr>)) \<and>
   (\<forall>b. openpyxl df = Some b \<longrightarrow>
      dataframe_to_excel_bytes openpyxl xlsxwriter to_csv df =
        \<lparr>bytes = b, mime = xlsx_mime, filename = ''business_list.xlsx''\<rparr>)"
  by (simp add: dataframe_to_excel_bytes_def encode_utf8_sig_def bom_def suffix_def)

section \<open>Pagination: results\<close>

lemma fetch_loop_step:
  "fetch_loop post mp results pf tok =
     (if goes_on mp pf (post pf (body_of tok))
      then apsnd (\<lambda>evs. Post (body_of tok) # Sleep 1000 # evs)
             (fetch_loop post mp (results @ page_results (post pf (body_of tok))) (Suc pf)
                (token (post pf (body_of tok))))
      else if sr_status_code (post pf (body_of tok)) = 200
        then (results @ page_results (post pf (body_of tok)), [Post (body_of tok)])
        else (results, [Post (body_of tok), St_error_http (sr_status_code (post pf (body_of tok)))]))"
  by (subst fetch_loop.simps)
     (simp add: Let_def goes_on_def body_of_def token_def page_results_def not_less)

lemma fetch_loop_induct [consumes 1, case_names stop go_on]:
  assumes run: "fetch_loop post mp results pf tok = (res, evs)"
    and stop: "\<And>results pf tok res evs.
      \<not> goes_on mp pf (post pf (body_of tok)) \<Longrightarrow>
      fetch_loop post mp results pf tok = (res, evs) \<Longrightarrow>
      res = (if sr_status_code (post pf (body_of tok)) = 200
             then results @ page_results (post pf (body_of tok)) else results) \<Longrightarrow>
      evs = Post (body_of tok) # (if sr_status_code (post pf (body_of tok)) = 200 then []
             else [St_error_http (sr_status_code (post pf (body_of tok)))]) \<Longrightarrow>
      P results pf tok res evs"
    and go_on: "\<And>results pf tok res evs'.
      goes_on mp pf (post pf (body_of tok)) \<Longrightarrow>
      fetch_loop post mp (results @ page_results (post pf (body_of tok))) (Suc pf)
        (token (post pf (body_of tok))) = (res, evs') \<Longrightarrow>
      P (results @ page_results (post pf (body_of tok))) (Suc pf)
        (token (post pf (body_of tok))) res evs' \<Longrightarrow>
      P results pf tok res (Post (body_of tok) # Sleep 1000 # evs')"
  shows "P results pf tok res evs"
  using run
proof (induction "nat (mp - int pf)" arbitrary: results pf tok res evs rule: less_induct)
  case less
  show ?case
  proof (cases "goes_on mp pf (post pf (body_of tok))")
    case False
    with less.prems show ?thesis
      by (intro stop) (auto simp add: fetch_loop_step [of post mp results pf tok])
  next
    case True
    obtain res' evs' where n: "fetch_loop post mp (results @ page_results (post pf (body_of tok)))
        (Suc pf) (token (post pf (body_of tok))) = (res', evs')"
      by (cases "fetch_loop post mp (results @ page_results (post pf (body_of tok)))
        (Suc pf) (token (post pf (body_of tok)))")
    from True have "nat (mp - int (Suc pf)) < nat (mp - int pf)"
      by (simp add: goes_on_def)
    from less.hyps [OF this n]
    have "P (results @ page_results (post pf (body_of tok))) (Suc pf)
        (token (post pf (body_of tok))) res' evs'" .
    from go_on [OF True n this] True n less.prems show ?thesis
      by (simp add: fetch_loop_step [of post mp results pf tok])
  qed
qed

lemma responses_Cons [simp]:
  "responses post pf (b # reqs) = post pf b # responses post (Suc pf) reqs"
  by (simp add: responses_def)

lemma responses_Nil [simp]: "responses post pf [] = []"
  by (simp add: responses_def)

lemma length_responses [simp]: "length (responses post pf reqs) = length reqs"
  by (simp add: responses_def)

lemma fetch_first_request:
  "fetch_loop post mp results pf tok = (res, evs) \<Longrightarrow>
     requests evs \<noteq> [] \<and> hd (requests evs) = body_of tok"
  by (induction rule: fetch_loop_induct) (simp_all split: if_splits)

lemma fetch_token_passing:
  "fetch_loop post mp results pf tok = (res, evs) \<Longrightarrow>
     tl (requests evs) = map (\<lambda>r. Some (token r)) (butlast (responses post pf (requests evs)))"
proof (induction rule: fetch_loop_induct)
  case (stop results pf tok res evs)
  then show ?case by (simp split: if_splits)
next
  case (go_on results pf tok res evs')
  from fetch_first_request [OF go_on(2)] go_on(1)
  have "requests evs' \<noteq> []" and "hd (requests evs') = Some (token (post pf (body_of tok)))"
    by (simp_all add: body_of_def goes_on_def)
  then obtain rest where r: "requests evs' = Some (token (post pf (body_of tok))) # rest"
    by (cases "requests evs'") auto
  with go_on(3) show ?case by simp
qed

lemma fetch_stop:
  "fetch_loop post mp results pf tok = (res, evs) \<Longrightarrow> k < length (requests evs) \<Longrightarrow>
     (Suc k = length (requests evs)) =
       (\<not> goes_on mp (pf + k) (responses post pf (requests evs) ! k))"
proof (induction arbitrary: k rule: fetch_loop_induct)
  case (stop results pf tok res evs)
  then show ?case by (simp split: if_splits)
next
  case (go_on results pf tok res evs')
  from fetch_first_request [OF go_on(2)] have ne: "requests evs' \<noteq> []" by simp
  show ?case
  proof (cases k)
    case 0
    with go_on(1) ne show ?thesis by simp
  next
    case (Suc j)
    with go_on(4) have "j < length (requests evs')" by simp
    from go_on(3) [OF this] Suc show ?thesis by simp
  qed
qed

lemma fetch_results:
  "fetch_loop post mp results pf tok = (res, evs) \<Longrightarrow>
     res = results @ concat (map page_results
       (filter (\<lambda>r. sr_status_code r = 200) (responses post pf (requests evs))))"
proof (induction rule: fetch_loop_induct)
  case (stop results pf tok res evs)
  then show ?case by (simp split: if_splits)
next
  case (go_on results pf tok res evs')
  then show ?case by (simp add: goes_on_def)
qed

lemma fetch_paced:
  "fetch_loop post mp results pf tok = (res, evs) \<Longrightarrow>
     filter is_paced evs = between (Sleep 1000) (map Post (requests evs))"
proof (induction rule: fetch_loop_induct)
  case (stop results pf tok res evs)
  then show ?case by (simp split: if_splits)
next
  case (go_on results pf tok res evs')
  from fetch_first_request [OF go_on(2)] obtain b rest where "requests evs' = b # rest"
    by (cases "requests evs'") auto
  with go_on(3) show ?case by simp
qed

lemma fetch_bound:
  "fetch_loop post mp results pf tok = (res, evs) \<Longrightarrow>
     int (pf + length (requests evs)) \<le> max (int pf + 1) mp"
proof (induction rule: fetch_loop_induct)
  case (stop results pf tok res evs)
  then show ?case by (simp split: if_splits)
next
  case (go_on results pf tok res evs')
  then show ?case by (simp add: goes_on_def)
qed

lemma fetch_no_gets:
  "fetch_loop post mp results pf tok = (res, evs) \<Longrightarrow> get_urls evs = []"
  by (induction rule: fetch_loop_induct) (simp_all split: if_splits)

text \<open>
  Claim C2. The first request carries no page token; every later request carries the
  token of the response before it; a response is the last one exactly when its status
  is not 200, it carries no token, or the number of pages fetched has reached
  \<open>max_pages\<close>; the results are those of the pages in response order; between two
  requests there is one delay of 1000 ms; and at most \<open>max_pages\<close> requests are made
  (one when \<open>max_pages\<close> is below 1).
\<close>
theorem pagination:
  assumes "fetch_businesses_v1 post max_pages = (results, evs)"
  shows "requests evs \<noteq> [] \<and> hd (requests evs) = None \<and>
    tl (requests evs) =
      map (\<lambda>r. Some (token r)) (butlast (responses post 0 (requests evs))) \<and>
    (\<forall>k<length (requests evs).
       (Suc k = length (requests evs)) =
         (sr_status_code (responses post 0 (requests evs) ! k) \<noteq> 200 \<or>
          \<not> truthy (token (responses post 0 (requests evs) ! k)) \<or>
          max_pages \<le> int (Suc k))) \<and>
    results = concat (map page_results
      (filter (\<lambda>r. sr_status_code r = 200) (responses post 0 (requests evs)))) \<and>
    filter is_paced evs = between (Sleep 1000) (map Post (requests evs)) \<and>
    int (length (requests evs)) \<le> max 1 max_pages"
proof -
  from assms have l: "fetch_loop post max_pages [] 0 PNone = (results, evs)"
    by (simp add: fetch_businesses_v1_def)
  have "requests evs \<noteq> []" and "hd (requests evs) = None"
    using fetch_first_request [OF l] by (simp_all add: body_of_def)
  moreover have "tl (requests evs) =
      map (\<lambda>r. Some (token r)) (butlast (responses post 0 (requests evs)))"
    by (rule fetch_token_passing [OF l])
  moreover have "\<forall>k<length (requests evs).
       (Suc k = length (requests evs)) =
         (sr_status_code (responses post 0 (requests evs) ! k) \<noteq> 200 \<or>
          \<not> truthy (token (responses post 0 (requests evs) ! k)) \<or>
          max_pages \<le> int (Suc k))"
    using fetch_stop [OF l] by (auto simp add: goes_on_def)
  moreover have "results = concat (map page_results
      (filter (\<lambda>r. sr_status_code r = 200) (responses post 0 (requests evs))))"
    using fetch_results [OF l] by simp
  moreover have "filter is_paced evs = between (Sleep 1000) (map Post (requests evs))"
    by (rule fetch_paced [OF l])
  moreover have "int (length (requests evs)) \<le> max 1 max_pages"
    using fetch_bound [OF l] by simp
  ultimately show ?thesis by blast
qed

lemma website_to_search_result:
  "website (to_search_result p) =
     (if present (p_websiteUri p) then get_key (p_websiteUri p) else PStr '''')"
  by (simp add: to_search_result_def py_or_def present_truthy)

lemma truthy_not_None: "truthy v \<Longrightarrow> v \<noteq> PNone"
  by (cases v) simp_all

lemma website_to_search_result_not_None: "website (to_search_result p) \<noteq> PNone"
  by (simp add: to_search_result_def py_or_def truthy_not_None)

lemma website_choice_not_None: "website_choice d b \<noteq> PNone"
  by (simp add: website_choice_def present_truthy truthy_not_None)

lemma fetch_results_built:
  assumes "r \<in> set (fst (fetch_businesses_v1 post max_pages))"
  shows "\<exists>p. r = to_search_result p"
proof -
  obtain res evs where l: "fetch_loop post max_pages [] 0 PNone = (res, evs)"
    by (cases "fetch_loop post max_pages [] 0 PNone")
  from fetch_results [OF l] assms l show ?thesis
    by (auto simp add: fetch_businesses_v1_def page_results_def)
qed

lemma map_Website_rows:
  "length ds = length bs \<Longrightarrow>
   map Website (map (\<lambda>(k, d, b). detailed_row d b (clock k)) (enumerate i (zip ds bs))) =
     map (\<lambda>(d, b). website_choice d b) (zip ds bs)"
  by (induction ds bs arbitrary: i rule: list_induct2) (simp_all add: Website_detailed_row)

text \<open>
  Claim C5. The website of every search result is built from a place of a response and
  is never \<open>None\<close>: it is the place's own website when present and else the empty
  string. The \<open>Website\<close> of every enriched row is never \<open>None\<close>: it is the website of
  the details response when present, else the website of the search result when that
  is not empty, else the empty string.
\<close>
theorem website_never_none:
  "(\<forall>r \<in> set (fst (fetch_businesses_v1 post max_pages)).
      website r \<noteq> PNone \<and> (\<exists>p. r = to_search_result p)) \<and>
   website (to_search_result p) =
     (if present (p_websiteUri p) then get_key (p_websiteUri p) else PStr '''') \<and>
   (\<exists>rows evs. enrich_with_details_v1 g clock bs = Inr (rows, evs) \<and>
      map Website rows = map (\<lambda>(d, b). website_choice d b) (zip (details_for g 0 bs) bs) \<and>
      (\<forall>row \<in> set rows. Website row \<noteq> PNone))"
proof -
  have a: "\<forall>r \<in> set (fst (fetch_businesses_v1 post max_pages)).
      website r \<noteq> PNone \<and> (\<exists>p. r = to_search_result p)"
    using fetch_results_built website_to_search_result_not_None by blast
  obtain evs where e: "enrich_with_details_v1 g clock bs =
     Inr (map (\<lambda>(k, d, b). detailed_row d b (clock k))
            (enumerate 1 (zip (details_for g 0 bs) bs)), evs)"
    using enrich_rows by blast
  have m: "map Website (map (\<lambda>(k, d, b). detailed_row d b (clock k))
            (enumerate 1 (zip (details_for g 0 bs) bs))) =
     map (\<lambda>(d, b). website_choice d b) (zip (details_for g 0 bs) bs)"
    by (rule map_Website_rows) (rule length_details_for)
  have n: "\<forall>row \<in> set (map (\<lambda>(k, d, b). detailed_row d b (clock k))
            (enumerate 1 (zip (details_for g 0 bs) bs))). Website row \<noteq> PNone"
    by (auto simp add: Website_detailed_row website_choice_not_None)
  from a website_to_search_result e m n show ?thesis by blast
qed

lemma enrich_events:
  assumes "enrich_with_details_v1 g clock bs = Inr (rows, evs)"
  shows "requests evs = []" and "set (get_urls evs) = (\<lambda>b. details_url (place_id b)) ` set bs"
proof -
  have "requests evs = [] \<and> set (get_urls evs) = (\<lambda>b. details_url (place_id b)) ` set bs"
  proof (cases "bs = []")
    case True
    with assms show ?thesis by (simp add: enrich_with_details_v1_def)
  next
    case False
    with assms obtain evs' where l: "enrich_loop g clock (length bs) 1 0 bs = Inr (rows, evs')"
      and e: "evs = St_progress_init # evs' @ [St_progress_empty]"
      by (auto simp add: enrich_with_details_v1_def split: sum.splits)
    from enrich_loop_events [OF l] e show ?thesis by simp
  qed
  then show "requests evs = []" and "set (get_urls evs) = (\<lambda>b. details_url (place_id b)) ` set bs"
    by simp_all
qed

lemma run_cases:
  assumes "api_key \<noteq> []"
  obtains (empty) "(if only then pre_filter (fst (fetch_businesses_v1 (w_post w) mp))
                    else fst (fetch_businesses_v1 (w_post w) mp)) = []"
      "run w api_key mp only = Inr (Stopped,
         snd (fetch_businesses_v1 (w_post w) mp) @
         St_success (length (fst (fetch_businesses_v1 (w_post w) mp))) #
         (if only then [St_info 0] else []) @ [St_warning_empty])"
  | (download) enriched evs4 where
      "(if only then pre_filter (fst (fetch_businesses_v1 (w_post w) mp))
        else fst (fetch_businesses_v1 (w_post w) mp)) \<noteq> []"
      "enrich_with_details_v1 (w_http_get w) (w_clock w)
         (if only then pre_filter (fst (fetch_businesses_v1 (w_post w) mp))
          else fst (fetch_businesses_v1 (w_post w) mp)) = Inr (enriched, evs4)"
      "run w api_key mp only =
         Inr (Downloaded (if only then post_filter enriched else enriched)
                (dataframe_to_excel_bytes (w_openpyxl w) (w_xlsxwriter w) (w_to_csv w)
                   (if only then post_filter enriched else enriched)),
              snd (fetch_businesses_v1 (w_post w) mp) @
              St_success (length (fst (fetch_businesses_v1 (w_post w) mp))) #
              (if only then [St_info (length (pre_filter (fst (fetch_businesses_v1 (w_post w) mp))))]
               else []) @ evs4 @ [St_download])"
proof -
  let ?ps = "if only then pre_filter (fst (fetch_businesses_v1 (w_post w) mp))
             else fst (fetch_businesses_v1 (w_post w) mp)"
  show thesis
  proof (cases "?ps = []")
    case True
    show thesis
      by (rule empty [OF True]) (use True assms in \<open>auto simp add: run_def Let_def split: prod.splits\<close>)
  next
    case False
    obtain enriched evs4 where e: "enrich_with_details_v1 (w_http_get w) (w_clock w) ?ps
        = Inr (enriched, evs4)"
      using enrich_rows [of "w_http_get w" "w_clock w" ?ps] by blast
    show thesis
      by (rule download [OF False e])
         (use False e assms in \<open>auto simp add: run_def Let_def split: prod.splits\<close>)
  qed
qed

section \<open>Mocked runs\<close>

lemmas mock_simps = mk_place_def page_def mock_post_def details_ok_def details_failed_def
  mock_get_def mock_world_def pages_abc_def

lemmas py_simps = get_key_def get_default_def py_or_def or_empty_dict_def py_zero_def
  body_of_def token_def goes_on_def page_results_def present_def

lemma has_site_NA: "\<not> has_site (PStr ''N/A'')"
  by (simp add: has_site_def strip_def isspace_def upper_def upper_char_def sentinels_def)

lemma has_site_empty: "\<not> has_site (PStr '''')"
  by (simp add: has_site_def strip_def)

lemma has_site_example: "has_site (PStr ''https://example.com'')"
  by (simp add: has_site_def strip_def isspace_def upper_def upper_char_def sentinels_def
      char_of_eq_iff)

text \<open>
  The mocked token sequence A, B, none: three requests, results in response order; with
  \<open>max_pages = 2\<close> at most two requests.
\<close>
theorem pagination_witness:
  "fetch_businesses_v1 (mock_post pages_abc) 3 =
     (map to_search_result [mk_place ''p1'' None, mk_place ''p2'' None, mk_place ''p3'' None],
      [Post None, Sleep 1000, Post (Some (PStr ''A'')), Sleep 1000, Post (Some (PStr ''B''))]) \<and>
   length (requests (snd (fetch_businesses_v1 (mock_post pages_abc) 3))) = 3 \<and>
   length (requests (snd (fetch_businesses_v1 (mock_post pages_abc) 2))) \<le> 2"
proof -
  have e: "fetch_businesses_v1 (mock_post pages_abc) 3 =
     (map to_search_result [mk_place ''p1'' None, mk_place ''p2'' None, mk_place ''p3'' None],
      [Post None, Sleep 1000, Post (Some (PStr ''A'')), Sleep 1000, Post (Some (PStr ''B''))])"
    by (simp add: fetch_businesses_v1_def fetch_loop_step py_simps mock_post_def page_def
        pages_abc_def)
  have "fetch_businesses_v1 (mock_post pages_abc) 2 =
     (fst (fetch_businesses_v1 (mock_post pages_abc) 2),
      snd (fetch_businesses_v1 (mock_post pages_abc) 2))"
    by simp
  from pagination [OF this]
  have "length (requests (snd (fetch_businesses_v1 (mock_post pages_abc) 2))) \<le> 2"
    by simp
  with e show ?thesis by simp
qed

lemmas result_simps = mk_result_def to_search_result_def

text \<open>Both numbers, only the international number, no number.\<close>
theorem phone_preference_witness:
  "\<exists>rows evs.
     enrich_with_details_v1
       (mock_get [details_ok (Some (PStr ''011-123'')) (Some (PStr ''+27-11-123'')) None,
                  details_ok None (Some (PStr ''+27-11-123'')) None,
                  details_ok None None None])
       (\<lambda>i. ''2026-01-01 00:00:00 UTC'')
       [mk_result ''p1'' '''', mk_result ''p2'' '''', mk_result ''p3'' ''''] = Inr (rows, evs) \<and>
     map Phone rows = [PStr ''011-123'', PStr ''+27-11-123'', PStr ''N/A'']"
  using phone_preference [of
       "mock_get [details_ok (Some (PStr ''011-123'')) (Some (PStr ''+27-11-123'')) None,
                  details_ok None (Some (PStr ''+27-11-123'')) None,
                  details_ok None None None]"
       "\<lambda>i. ''2026-01-01 00:00:00 UTC''"
       "[mk_result ''p1'' '''', mk_result ''p2'' '''', mk_result ''p3'' '''']"]
  by (simp add: get_detailed_info_v1_cases phone_choice_def py_simps mock_get_def details_ok_def
      empty_details_def Let_def)


text \<open>Websites missing, null and given; the three sources of an enriched website.\<close>
theorem website_never_none_witness:
  "website (to_search_result (mk_place ''p1'' None)) = PStr '''' \<and>
   website (to_search_result (mk_place ''p1'' (Some PNone))) = PStr '''' \<and>
   website (to_search_result (mk_place ''p1'' (Some (PStr ''https://example.com'')))) =
     PStr ''https://example.com'' \<and>
   (\<exists>rows evs.
     enrich_with_details_v1
       (mock_get [details_ok None None (Some (PStr ''https://shop.example'')),
                  details_ok None None None, details_ok None None None])
       (\<lambda>i. ''2026-01-01 00:00:00 UTC'')
       [mk_result ''p1'' ''https://example.com'', mk_result ''p2'' ''https://example.com'',
        mk_result ''p3'' ''''] = Inr (rows, evs) \<and>
     map Website rows = [PStr ''https://shop.example'', PStr ''https://example.com'', PStr ''''])"
proof -
  let ?g = "mock_get [details_ok None None (Some (PStr ''https://shop.example'')),
                  details_ok None None None, details_ok None None None]"
  let ?bs = "[mk_result ''p1'' ''https://example.com'', mk_result ''p2'' ''https://example.com'',
        mk_result ''p3'' '''']"
  note w = website_never_none [of "mock_post pages_abc" 3 _ ?g
      "\<lambda>i. ''2026-01-01 00:00:00 UTC''" ?bs]
  have a: "website (to_search_result (mk_place ''p1'' None)) = PStr ''''"
    using w [of "mk_place ''p1'' None"] by (simp add: mk_place_def py_simps)
  have b: "website (to_search_result (mk_place ''p1'' (Some PNone))) = PStr ''''"
    using w [of "mk_place ''p1'' (Some PNone)"] by (simp add: mk_place_def py_simps)
  have c: "website (to_search_result (mk_place ''p1'' (Some (PStr ''https://example.com'')))) =
      PStr ''https://example.com''"
    using w [of "mk_place ''p1'' (Some (PStr ''https://example.com''))"]
    by (simp add: mk_place_def py_simps)
  from w [of "mk_place ''p1'' None"] obtain rows evs where
    e: "enrich_with_details_v1 ?g (\<lambda>i. ''2026-01-01 00:00:00 UTC'') ?bs = Inr (rows, evs)"
    and m: "map Website rows = map (\<lambda>(d, b). website_choice d b) (zip (details_for ?g 0 ?bs) ?bs)"
    by blast
  have "map (\<lambda>(d, b). website_choice d b) (zip (details_for ?g 0 ?bs) ?bs) =
      [PStr ''https://shop.example'', PStr ''https://example.com'', PStr '''']"
    by (simp add: get_detailed_info_v1_cases website_choice_def py_simps mock_get_def
        details_ok_def empty_details_def Let_def result_simps mk_place_def)
  with e m a b c show ?thesis by simp
qed

text \<open>Both backends unavailable; only the first unavailable.\<close>
theorem export_fallback_witness:
  "mime (dataframe_to_excel_bytes (\<lambda>df. None) (\<lambda>df. None) (\<lambda>df. ''Name,Phone'') ()) = ''text/csv'' \<and>
   suffix ''.csv'' (filename
     (dataframe_to_excel_bytes (\<lambda>df. None) (\<lambda>df. None) (\<lambda>df. ''Name,Phone'') ())) \<and>
   bytes (dataframe_to_excel_bytes (\<lambda>df. None) (\<lambda>df. None) (\<lambda>df. ''Name,Phone'') ()) =
     [0xEF, 0xBB, 0xBF, 0x4E, 0x61, 0x6D, 0x65, 0x2C, 0x50, 0x68, 0x6F, 0x6E, 0x65] \<and>
   dataframe_to_excel_bytes (\<lambda>df. None) (\<lambda>df. Some [0x50, 0x4B]) (\<lambda>df. ''Name,Phone'') () =
     \<lparr>bytes = [0x50, 0x4B], mime = xlsx_mime, filename = ''business_list.xlsx''\<rparr>"
  using export_fallback [of "\<lambda>df. None" "()" "\<lambda>df. None" "\<lambda>df. ''Name,Phone''"]
    export_fallback [of "\<lambda>df. None" "()" "\<lambda>df. Some [0x50, 0x4B]" "\<lambda>df. ''Name,Phone''"]
  by (simp add: utf8_def utf8_char_def)

text \<open>Two places, all details requests failing: the fractions are 1/2 and 1.\<close>
theorem progress_fraction_defined_witness:
  "\<exists>rows evs.
     enrich_with_details_v1 (mock_get []) (\<lambda>i. ''2026-01-01 00:00:00 UTC'')
       [mk_result ''p1'' '''', mk_result ''p2'' ''''] = Inr (rows, evs) \<and>
     progress_fractions evs = [1 / 2, 1]"
proof -
  from progress_fraction_defined [of "mock_get []" "\<lambda>i. ''2026-01-01 00:00:00 UTC''"
      "[mk_result ''p1'' '''', mk_result ''p2'' '''']"]
  obtain rows evs where
    e: "enrich_with_details_v1 (mock_get []) (\<lambda>i. ''2026-01-01 00:00:00 UTC'')
       [mk_result ''p1'' '''', mk_result ''p2'' ''''] = Inr (rows, evs)"
    and f: "progress_fractions evs = map (\<lambda>i. of_nat i / of_nat
        (length [mk_result ''p1'' '''', mk_result ''p2'' ''''])) [1..<Suc
        (length [mk_result ''p1'' '''', mk_result ''p2'' ''''])]"
    by blast
  from f have "progress_fractions evs = [1 / 2, 1]" by (simp add: upt_rec)
  with e show ?thesis by blast
qed

text \<open>A value with a website.\<close>
theorem has_site_twice_witness:
  "has_site (PBool (has_site (PStr ''https://example.com''))) =
     has_site (PStr ''https://example.com'')"
  using has_site_twice [of "PStr ''https://example.com''"] has_site_example by simp

section \<open>The end-to-end run: results\<close>

lemmas world_simps = world_site_found_by_details_def world_na_from_details_def
  world_mixed_search_def world_site_in_search_def

lemma has_site_shop: "has_site (PStr ''https://shop.example'')"
  by (simp add: has_site_def strip_def isspace_def upper_def upper_char_def sentinels_def
      char_of_eq_iff)

lemmas eval_simps = run_def fetch_businesses_v1_def fetch_loop_step enrich_with_details_v1_def
  get_detailed_info_v1_cases py_truediv_def pre_filter_def post_filter_def detailed_row_def
  to_search_result_def dataframe_to_excel_bytes_def py_simps mock_simps empty_details_def Let_def
  has_site_NA has_site_empty has_site_example has_site_shop run_rows_def run_events_def

text \<open>
  Claim C7, amended. When only places without a website are requested, the final output
  is the enriched rows whose \<open>Website\<close> is not a real website: a row whose \<open>Website\<close>
  is a real website is excluded although its search result passed the pre-filter, and
  a row whose \<open>Website\<close> is the text \<open>N/A\<close> is kept.
\<close>
theorem post_filter_excludes_real_sites:
  assumes "run w api_key mp True = Inr (Downloaded rows out, evs)"
  shows "\<exists>enriched evs4.
     enrich_with_details_v1 (w_http_get w) (w_clock w)
       (filter (\<lambda>p. \<not> has_site (website p)) (fst (fetch_businesses_v1 (w_post w) mp))) =
       Inr (enriched, evs4) \<and>
     rows = filter (\<lambda>row. \<not> has_site (Website row)) enriched \<and>
     (\<forall>row\<in>set enriched. has_site (Website row) \<longrightarrow> row \<notin> set rows) \<and>
     (\<forall>row\<in>set enriched. Website row = PStr ''N/A'' \<longrightarrow> row \<in> set rows)"
proof -
  from assms have key: "api_key \<noteq> []"
    by (auto simp add: run_def)
  from key show ?thesis
  proof (cases rule: run_cases [where only = True and w = w and mp = mp])
    case empty
    with assms show ?thesis by simp
  next
    case (download enriched evs4)
    with assms have "rows = post_filter enriched" by simp
    with download(2) show ?thesis
      by (auto simp add: post_filter_def pre_filter_def has_site_NA)
  qed
qed

text \<open>
  Two places without a website in the search; the details give a real website for the
  first and \<open>N/A\<close> for the second: only the second is in the output.
\<close>
theorem post_filter_excludes_real_sites_witness:
  "\<exists>rows out evs. run world_site_found_by_details ''key'' 1 True = Inr (Downloaded rows out, evs) \<and>
     map Website rows = [PStr ''N/A''] \<and> map Place_ID rows = [PStr ''p2'']"
proof -
  have "\<exists>rows out evs. run world_site_found_by_details ''key'' 1 True =
      Inr (Downloaded rows out, evs)"
    by (simp add: eval_simps world_simps)
  then obtain rows out evs where
    r: "run world_site_found_by_details ''key'' 1 True = Inr (Downloaded rows out, evs)"
    by blast
  from post_filter_excludes_real_sites [OF r] obtain enriched evs4 where
    e: "enrich_with_details_v1 (w_http_get world_site_found_by_details)
       (w_clock world_site_found_by_details)
       (filter (\<lambda>p. \<not> has_site (website p))
         (fst (fetch_businesses_v1 (w_post world_site_found_by_details) 1))) =
       Inr (enriched, evs4)"
    and f: "rows = filter (\<lambda>row. \<not> has_site (Website row)) enriched"
    by blast
  from e f have "map Website rows = [PStr ''N/A''] \<and> map Place_ID rows = [PStr ''p2'']"
    by (auto simp add: eval_simps world_simps)
  with r show ?thesis by auto
qed

text \<open>
  Claim C7 as stated fails: the search response names no website, the details response
  gives the website \<open>N/A\<close>, and the row is in the final output.
\<close>
theorem na_website_kept:
  "map Website (run_rows (run world_na_from_details ''key'' 1 True)) = [PStr ''N/A'']"
  by (simp add: eval_simps world_simps)

text \<open>
  Claim C8, amended. Every run with an API key ends without an error. The search is
  complete before the first details request. The details client is called for exactly
  the search results that are kept: those without a real website when only places
  without a website are requested, and all of them otherwise. The pass after
  enrichment is applied under the same condition.
\<close>
theorem details_follow_toggle:
  assumes "api_key \<noteq> []"
  shows "\<exists>enriched evs4 oc evs rest.
     enrich_with_details_v1 (w_http_get w) (w_clock w)
       (if only then filter (\<lambda>b. \<not> has_site (website b)) (fst (fetch_businesses_v1 (w_post w) mp))
        else fst (fetch_businesses_v1 (w_post w) mp)) = Inr (enriched, evs4) \<and>
     run w api_key mp only = Inr (oc, evs) \<and>
     evs = snd (fetch_businesses_v1 (w_post w) mp) @ rest \<and>
     get_urls (snd (fetch_businesses_v1 (w_post w) mp)) = [] \<and>
     requests rest = [] \<and>
     set (get_urls evs) = (\<lambda>b. details_url (place_id b)) `
       {b \<in> set (fst (fetch_businesses_v1 (w_post w) mp)). only \<longrightarrow> \<not> has_site (website b)} \<and>
     run_rows (run w api_key mp only) =
       (if only then filter (\<lambda>row. \<not> has_site (Website row)) enriched else enriched)"
proof -
  let ?ps = "fst (fetch_businesses_v1 (w_post w) mp)"
  let ?fevs = "snd (fetch_businesses_v1 (w_post w) mp)"
  let ?sel = "if only then pre_filter ?ps else ?ps"
  let ?urls = "(\<lambda>b. details_url (place_id b)) `
       {b \<in> set ?ps. only \<longrightarrow> \<not> has_site (website b)}"
  have sel: "set ?sel = {b \<in> set ?ps. only \<longrightarrow> \<not> has_site (website b)}"
    by (auto simp add: pre_filter_def)
  have sel': "(if only then filter (\<lambda>b. \<not> has_site (website b)) ?ps else ?ps) = ?sel"
    by (simp add: pre_filter_def)
  obtain res fevs where l: "fetch_loop (w_post w) mp [] 0 PNone = (res, fevs)"
    by (cases "fetch_loop (w_post w) mp [] 0 PNone")
  from fetch_no_gets [OF l] l have ng: "get_urls ?fevs = []"
    by (simp add: fetch_businesses_v1_def)
  from assms show ?thesis
  proof (cases rule: run_cases [where only = only and w = w and mp = mp])
    case empty
    let ?rest = "St_success (length ?ps) # (if only then [St_info 0] else []) @ [St_warning_empty]"
    have 1: "enrich_with_details_v1 (w_http_get w) (w_clock w) ?sel = Inr ([], [])"
      using empty(1) by (simp add: enrich_with_details_v1_def)
    have 2: "run w api_key mp only = Inr (Stopped, ?fevs @ ?rest)"
      using empty(2) by simp
    have 3: "requests ?rest = []" by simp
    have 4: "set (get_urls (?fevs @ ?rest)) = ?urls"
      using ng empty(1) unfolding sel [symmetric] by simp
    have 5: "run_rows (run w api_key mp only) =
        (if only then filter (\<lambda>row. \<not> has_site (Website row)) [] else [])"
      unfolding 2 by (simp add: run_rows_def)
    show ?thesis
      unfolding sel'
      by (rule exI [of _ "[]"], rule exI [of _ "[]"], rule exI [of _ Stopped],
          rule exI [of _ "?fevs @ ?rest"], rule exI [of _ ?rest])
         (intro conjI 1 2 3 4 5 ng refl)
  next
    case (download enriched evs4)
    let ?rows = "if only then post_filter enriched else enriched"
    let ?oc = "Downloaded ?rows
       (dataframe_to_excel_bytes (w_openpyxl w) (w_xlsxwriter w) (w_to_csv w) ?rows)"
    let ?rest = "St_success (length ?ps) #
        (if only then [St_info (length (pre_filter ?ps))] else []) @ evs4 @ [St_download]"
    from enrich_events [OF download(2)]
    have rq: "requests evs4 = []"
      and gu: "set (get_urls evs4) = (\<lambda>b. details_url (place_id b)) ` set ?sel"
      by simp_all
    have 2: "run w api_key mp only = Inr (?oc, ?fevs @ ?rest)"
      using download(3) by simp
    have 3: "requests ?rest = []" using rq by simp
    have 4: "set (get_urls (?fevs @ ?rest)) = ?urls"
      using ng gu unfolding sel [symmetric] by simp
    have 5: "run_rows (run w api_key mp only) =
        (if only then filter (\<lambda>row. \<not> has_site (Website row)) enriched else enriched)"
      unfolding 2 by (simp add: run_rows_def post_filter_def)
    show ?thesis
      unfolding sel'
      by (rule exI [of _ enriched], rule exI [of _ evs4], rule exI [of _ ?oc],
          rule exI [of _ "?fevs @ ?rest"], rule exI [of _ ?rest])
         (intro conjI download(2) 2 3 4 5 ng refl)
  qed
qed

text \<open>
  Claim C8 as stated fails: when places with a website are not excluded, a search result
  with a real website is passed to the details client.
\<close>
theorem site_passed_to_details:
  "map website (fst (fetch_businesses_v1 (w_post world_site_in_search) 1)) =
     [PStr ''https://example.com''] \<and>
   has_site (PStr ''https://example.com'') \<and>
   get_urls (run_events (run world_site_in_search ''key'' 1 False)) =
     [details_url (PStr ''p1'')]"
  by (simp add: eval_simps world_simps)

lemma sel_mixed:
  "filter (\<lambda>b. \<not> has_site (website b))
     (fst (fetch_businesses_v1 (w_post world_mixed_search) 1)) =
   [to_search_result (mk_place ''p2'' None)]"
  by (simp add: fetch_businesses_v1_def fetch_loop_step py_simps mock_simps world_simps
      to_search_result_def has_site_example has_site_empty)

lemma enrich_mixed:
  "enrich_with_details_v1 (w_http_get world_mixed_search) (w_clock world_mixed_search)
     [to_search_result (mk_place ''p2'' None)] = Inr (enriched, evs4) \<Longrightarrow>
   map Place_ID (filter (\<lambda>row. \<not> has_site (Website row)) enriched) = [PStr ''p2'']"
  by (auto simp add: enrich_with_details_v1_def get_detailed_info_v1_cases py_truediv_def
      detailed_row_def to_search_result_def py_simps mock_simps world_simps empty_details_def
      Let_def has_site_empty)

text \<open>A search with one place that has a website and one that has none.\<close>
theorem details_follow_toggle_witness:
  "set (get_urls (run_events (run world_mixed_search ''key'' 1 True))) =
     {details_url (PStr ''p2'')} \<and>
   map Place_ID (run_rows (run world_mixed_search ''key'' 1 True)) = [PStr ''p2'']"
proof -
  have k: "''key'' \<noteq> []" by simp
  from details_follow_toggle [OF k, of world_mixed_search True 1]
  obtain enriched evs4 oc evs rest where
    e: "enrich_with_details_v1 (w_http_get world_mixed_search) (w_clock world_mixed_search)
         (if True then filter (\<lambda>b. \<not> has_site (website b))
           (fst (fetch_businesses_v1 (w_post world_mixed_search) 1))
          else fst (fetch_businesses_v1 (w_post world_mixed_search) 1)) = Inr (enriched, evs4)"
    and r: "run world_mixed_search ''key'' 1 True = Inr (oc, evs)"
    and g: "set (get_urls evs) = (\<lambda>b. details_url (place_id b)) `
       {b \<in> set (fst (fetch_businesses_v1 (w_post world_mixed_search) 1)).
          True \<longrightarrow> \<not> has_site (website b)}"
    and f: "run_rows (run world_mixed_search ''key'' 1 True) =
       (if True then filter (\<lambda>row. \<not> has_site (Website row)) enriched else enriched)"
    by (elim exE conjE)
  have s: "{b \<in> set (fst (fetch_businesses_v1 (w_post world_mixed_search) 1)).
          True \<longrightarrow> \<not> has_site (website b)} =
      set (filter (\<lambda>b. \<not> has_site (website b))
        (fst (fetch_businesses_v1 (w_post world_mixed_search) 1)))"
    by simp
  have "set (get_urls (run_events (run world_mixed_search ''key'' 1 True))) = set (get_urls evs)"
    unfolding r by (simp add: run_events_def)
  also have "\<dots> = {details_url (PStr ''p2'')}"
    unfolding g s sel_mixed by (simp add: to_search_result_def mk_place_def py_simps)
  finally have u: "set (get_urls (run_events (run world_mixed_search ''key'' 1 True))) =
      {details_url (PStr ''p2'')}" .
  have "map Place_ID (run_rows (run world_mixed_search ''key'' 1 True)) = [PStr ''p2'']"
    using e unfolding f sel_mixed by (simp add: enrich_mixed)
  with u show ?thesis by simp
qed

end
